theory Spec2Isabelle
  imports Main "HOL-Library.Sublist"
begin

section \<open>Strings\<close>

text \<open>
  Python strings are modelled as \<open>string\<close> (lists of 8-bit characters), so the model
  covers texts whose code points are below 256. \<open>sub in s\<close> is \<open>contains sub s\<close>,
  \<open>s.startswith(p)\<close> is \<open>startswith s p\<close> and \<open>s.endswith(p)\<close> is
  \<open>endswith s p\<close>.
\<close>

fun contains :: "string \<Rightarrow> string \<Rightarrow> bool" where
  "contains sub [] = (sub = [])"
| "contains sub (c # cs) = (prefix sub (c # cs) \<or> contains sub cs)"

definition startswith :: "string \<Rightarrow> string \<Rightarrow> bool" where
  "startswith s p = prefix p s"

definition endswith :: "string \<Rightarrow> string \<Rightarrow> bool" where
  "endswith s p = prefix (rev p) (rev s)"

section \<open>The resilient fetcher: \<open>make_request\<close>\<close>












section \<open>Calendar dates\<close>

text \<open>
  A calendar date is a triple (year, month, day); the string \<open>YYYY-MM-DD\<close> the code
  builds and parses is its rendering. A \<open>datetime\<close> adds the time of day (in
  seconds since midnight); Python orders datetimes lexicographically.
\<close>

type_synonym date = "int \<times> nat \<times> nat"

type_synonym datetime = "int \<times> nat \<times> nat \<times> nat"

fun dt_less :: "datetime \<Rightarrow> datetime \<Rightarrow> bool" where
  "dt_less (y1, m1, d1, t1) (y2, m2, d2, t2) =
     (y1 < y2 \<or> (y1 = y2 \<and> (m1 < m2 \<or> (m1 = m2 \<and> (d1 < d2 \<or> (d1 = d2 \<and> t1 < t2))))))"

fun date_less :: "date \<Rightarrow> date \<Rightarrow> bool" where
  "date_less (y1, m1, d1) (y2, m2, d2) =
     (y1 < y2 \<or> (y1 = y2 \<and> (m1 < m2 \<or> (m1 = m2 \<and> d1 < d2))))"

fun strftime_date :: "datetime \<Rightarrow> date" where
  "strftime_date (y, m, d, t) = (y, m, d)"

definition is_leap :: "int \<Rightarrow> bool" where
  "is_leap y = (y mod 4 = 0 \<and> (y mod 100 \<noteq> 0 \<or> y mod 400 = 0))"

definition days_in_month :: "int \<Rightarrow> nat \<Rightarrow> nat" where
  "days_in_month y m =
     (if m = 2 then (if is_leap y then 29 else 28)
      else if m = 4 \<or> m = 6 \<or> m = 9 \<or> m = 11 then 30 else 31)"

text \<open>
  \<open>datetime.strptime(f"{y}-{month_day}", "%Y-%m-%d")\<close>: the directive \<open>%Y\<close> wants
  four digits, so the year must print with four digits, and the day must exist in the
  month. \<open>None\<close> is the \<open>ValueError\<close>. The parsed datetime is at midnight.
\<close>

definition strptime :: "int \<Rightarrow> nat \<times> nat \<Rightarrow> datetime option" where
  "strptime y md =
     (if 1000 \<le> y \<and> y \<le> 9999 \<and> 1 \<le> fst md \<and> fst md \<le> 12 \<and>
         1 \<le> snd md \<and> snd md \<le> days_in_month y (fst md)
      then Some (y, fst md, snd md, 0) else None)"

section \<open>The date-window generator: \<open>generate_links\<close>\<close>

text \<open>
  The search URL is determined by the four values the code formats into it, so it is a
  record of them. \<open>now\<close> is the value of \<open>datetime.now()\<close>. A month-day string
  such as \<open>12-13\<close> is the pair \<open>(12, 13)\<close>; \<open>start_month.startswith("12-")\<close> is
  \<open>fst start_month = 12\<close>, and the string comparison \<open>start_month > end_month\<close> of
  \<open>bot.py\<close> is the lexicographic comparison of the pairs, the strings being zero-padded.
\<close>

record search_url =
  q :: string
  newer_than :: date
  older_than :: date
  title_only_flag :: nat

datatype py_error = ValueError string

type_synonym link = "int \<times> search_url \<times> date \<times> date"

definition months :: "((nat \<times> nat) \<times> (nat \<times> nat)) list" where
  "months =
    [((12, 13), (1, 3)), ((11, 28), (12, 18)), ((11, 13), (12, 3)), ((10, 29), (11, 18)),
     ((10, 13), (11, 3)), ((9, 28), (10, 18)), ((9, 13), (10, 3)), ((8, 29), (9, 18)),
     ((8, 13), (9, 3)), ((7, 29), (8, 18)), ((7, 13), (8, 3)), ((6, 28), (7, 18)),
     ((6, 13), (7, 3)), ((5, 29), (6, 18)), ((5, 13), (6, 3)), ((4, 28), (5, 18)),
     ((4, 13), (5, 3)), ((3, 29), (4, 18)), ((3, 13), (4, 3)), ((2, 26), (3, 18)),
     ((2, 13), (3, 3)), ((1, 29), (2, 18)), ((1, 13), (2, 3)), ((12, 29), (1, 18))]"

definition encode_username :: "string \<Rightarrow> string" where
  "encode_username username = map (\<lambda>c. if c = CHR '' '' then CHR ''+'' else c) username"

text \<open>One iteration of the inner loop of \<open>generate_links\<close> in \<open>app.py\<close>: the links it appends.\<close>

definition gen_window ::
  "datetime \<Rightarrow> string \<Rightarrow> nat \<Rightarrow> int \<Rightarrow> (nat \<times> nat) \<times> (nat \<times> nat) \<Rightarrow> link list" where
  "gen_window now encoded_username title_flag year p =
     (let start_month = fst p; end_month = snd p;
          start_year_adj = (if fst start_month = 12 then year - 1 else year);
          end_year_adj = (if fst end_month = 1 then year + 1 else year);
          start_date = (start_year_adj, start_month);
          end_date = (end_year_adj, end_month)
      in case strptime start_year_adj start_month of
           None \<Rightarrow> []
         | Some start_dt \<Rightarrow>
            (case strptime end_year_adj end_month of
               None \<Rightarrow> []
             | Some end_dt \<Rightarrow>
                if dt_less now start_dt then []
                else
                  (let end_date = (if dt_less now end_dt then strftime_date now else end_date)
                   in if \<not> dt_less start_dt end_dt then []
                      else [(year,
                             \<lparr>q = encoded_username, newer_than = start_date,
                              older_than = end_date, title_only_flag = title_flag\<rparr>,
                             start_date, end_date)])))"

definition generate_links ::
  "datetime \<Rightarrow> int \<Rightarrow> int \<Rightarrow> string \<Rightarrow> bool \<Rightarrow> py_error + link list" where
  "generate_links now start_year end_year username title_only =
     (if username = [] then Inl (ValueError ''Invalid username'')
      else
        (let current_year = fst now;
             start_year = max 2010 start_year;
             end_year = min end_year current_year;
             encoded_username = encode_username username;
             title_flag = (if title_only then 1 else 0)
         in Inr (concat (map (\<lambda>year. concat (map (gen_window now encoded_username title_flag year) months))
                           (rev [start_year..end_year])))))"

text \<open>The same for \<open>bot.py\<close>, which has its own table and no check of the range.\<close>

definition months_bot :: "((nat \<times> nat) \<times> (nat \<times> nat)) list" where
  "months_bot =
    [((11, 28), (1, 3)), ((10, 29), (12, 3)),
     ((9, 28), (11, 3)), ((8, 29), (10, 3)),
     ((7, 29), (9, 3)), ((6, 28), (8, 3)),
     ((5, 29), (7, 3)), ((4, 28), (6, 3)),
     ((3, 29), (5, 3)), ((2, 26), (4, 3)),
     ((1, 29), (3, 3)), ((12, 29), (2, 3))]"

definition md_greater :: "nat \<times> nat \<Rightarrow> nat \<times> nat \<Rightarrow> bool" where
  "md_greater a b = (fst a > fst b \<or> (fst a = fst b \<and> snd a > snd b))"

definition gen_window_bot ::
  "datetime \<Rightarrow> string \<Rightarrow> nat \<Rightarrow> int \<Rightarrow> (nat \<times> nat) \<times> (nat \<times> nat) \<Rightarrow> link list" where
  "gen_window_bot now encoded_username title_flag year p =
     (let start_month = fst p; end_month = snd p;
          start_date = (year, start_month);
          end_year_adjusted = (if md_greater start_month end_month then year + 1 else year);
          end_date = (end_year_adjusted, end_month)
      in case strptime year start_month of
           None \<Rightarrow> []
         | Some start_dt \<Rightarrow>
            (case strptime end_year_adjusted end_month of
               None \<Rightarrow> []
             | Some end_dt \<Rightarrow>
                if dt_less now start_dt then []
                else
                  (let end_date = (if dt_less now end_dt then strftime_date now else end_date)
                   in [(year,
                        \<lparr>q = encoded_username, newer_than = start_date,
                         older_than = end_date, title_only_flag = title_flag\<rparr>,
                        start_date, end_date)])))"

definition generate_links_bot ::
  "datetime \<Rightarrow> int \<Rightarrow> int \<Rightarrow> string \<Rightarrow> bool \<Rightarrow> py_error + link list" where
  "generate_links_bot now start_year end_year username title_only =
     (if username = [] then Inl (ValueError ''Invalid username'')
      else
        (let current_year = fst now;
             start_year = max 2010 start_year;
             end_year = min end_year current_year;
             encoded_username = encode_username username;
             title_flag = (if title_only then 1 else 0)
         in Inr (concat (map (\<lambda>year. concat (map (gen_window_bot now encoded_username title_flag year) months_bot))
                           (rev [start_year..end_year])))))"

section \<open>The range splitter: \<open>split_url\<close>\<close>

text \<open>
  Dates are day numbers counted from 2010-01-01, so \<open>timedelta(days=n)\<close> is the
  addition of \<open>n\<close>, \<open>(b - a).days\<close> is \<open>b - a\<close>, and \<open>d.year < 2010\<close> is \<open>d < 0\<close>.
  \<open>now\<close> is the day number of \<open>datetime.now()\<close>: a date parsed from a string is at
  midnight, so it is greater than \<open>datetime.now()\<close> exactly when its day number is
  greater, and \<open>(now - d).days\<close> is the difference of the day numbers. The clock is read
  as the same day by every call of one split. The date strings are assumed to parse
  and to stay inside the range of \<open>datetime\<close>.

  The search URL of a window is determined by the window, both date parameters being
  rewritten by \<open>re.sub\<close>, so a result \<open>(url, start_date, end_date)\<close> is the window.
  The probe is a parameter: \<open>probe w\<close> is \<open>Some total_pages\<close> when the request for
  the window succeeds and its pagination parses, and \<open>None\<close> when an exception is raised.

  The recursion of the source has no bound of its own, so the model takes fuel:
  \<open>None\<close> means that the fuel did not suffice.
\<close>

type_synonym window = "int \<times> int"

definition MAX_PAGES_PER_SEARCH :: nat where
  "MAX_PAGES_PER_SEARCH = 10"

definition buffered :: "int \<Rightarrow> window \<Rightarrow> window" where
  "buffered now w =
     (let buffered_start_dt = fst w - 3;
          buffered_end_dt = snd w + 3;
          buffered_end_dt = (if buffered_end_dt > now then now else buffered_end_dt);
          buffered_start_dt = (if buffered_start_dt < 0 then 0 else buffered_start_dt)
      in (buffered_start_dt, buffered_end_dt))"

definition first_range :: "int \<Rightarrow> window \<Rightarrow> window" where
  "first_range now b =
     (let total_days = snd b - fst b;
          mid_dt = fst b + total_days div 2;
          first_range_start = fst b;
          first_range_end = mid_dt + 3;
          first_range_end = (if first_range_end > now then now else first_range_end)
      in (first_range_start, first_range_end))"

definition second_range :: "int \<Rightarrow> window \<Rightarrow> window" where
  "second_range now b =
     (let total_days = snd b - fst b;
          mid_dt = fst b + total_days div 2;
          second_range_start = mid_dt - 3;
          second_range_end = snd b;
          second_range_start = (if second_range_start > now then now else second_range_start)
      in (second_range_start, second_range_end))"

fun split_url ::
  "nat \<Rightarrow> (window \<Rightarrow> nat option) \<Rightarrow> int \<Rightarrow> nat \<Rightarrow> window \<Rightarrow> window list option" where
  "split_url 0 probe now max_pages w = None"
| "split_url (Suc fuel) probe now max_pages w =
     (if fst w \<ge> snd w then Some [w]
      else
        (let b = buffered now w in
         case probe b of
           None \<Rightarrow> Some [b]
         | Some total_pages \<Rightarrow>
            if total_pages < max_pages then Some [b]
            else if snd b - fst b \<le> 1 then Some [b]
            else
              (case split_url fuel probe now max_pages (first_range now b) of
                 None \<Rightarrow> None
               | Some xs \<Rightarrow>
                  (case split_url fuel probe now max_pages (second_range now b) of
                     None \<Rightarrow> None
                   | Some ys \<Rightarrow> Some (xs @ ys)))))"

text \<open>
  \<open>split_url\<close> of \<open>bot.py\<close>: no buffer and no smallest span; the children are
  \<open>(start, mid - 1)\<close> and \<open>(mid + 1, end)\<close>, and the recursive calls use the default
  ceiling.
\<close>

fun split_url_bot ::
  "nat \<Rightarrow> (window \<Rightarrow> nat option) \<Rightarrow> nat \<Rightarrow> window \<Rightarrow> window list option" where
  "split_url_bot 0 probe max_pages w = None"
| "split_url_bot (Suc fuel) probe max_pages w =
     (case probe w of
        None \<Rightarrow> Some [w]
      | Some total_pages \<Rightarrow>
         if total_pages < max_pages then Some [w]
         else
           (let total_days = snd w - fst w;
                mid_dt = fst w + total_days div 2;
                first_end = mid_dt - 1;
                second_start = mid_dt + 1
            in case split_url_bot fuel probe MAX_PAGES_PER_SEARCH (fst w, first_end) of
                 None \<Rightarrow> None
               | Some xs \<Rightarrow>
                  (case split_url_bot fuel probe MAX_PAGES_PER_SEARCH (second_start, snd w) of
                     None \<Rightarrow> None
                   | Some ys \<Rightarrow> Some (xs @ ys))))"


text \<open>
  Probes for the examples. \<open>probe_busy\<close> is a subject with ten result pages in every
  window of eleven days or more and one page in a shorter one; \<open>probe_example\<close> has
  fifteen pages in a window of more than forty days and two in a shorter one.
\<close>

definition probe_busy :: "window \<Rightarrow> nat option" where
  "probe_busy w = (if snd w - fst w \<ge> 11 then Some 10 else Some 1)"

definition probe_example :: "window \<Rightarrow> nat option" where
  "probe_example w = (if snd w - fst w > 40 then Some 15 else Some 2)"

section \<open>More on strings\<close>

text \<open>
  \<open>str.lower()\<close> on code points below 256: the ASCII capitals and the Latin-1 capitals
  (192 to 222 without the multiplication sign 215) move up by 32.
\<close>

definition lower_char :: "char \<Rightarrow> char" where
  "lower_char c =
     (let n = (of_char c :: nat)
      in if (65 \<le> n \<and> n \<le> 90) \<or> (192 \<le> n \<and> n \<le> 214) \<or> (216 \<le> n \<and> n \<le> 222)
         then char_of (n + 32) else c)"

definition lower :: "string \<Rightarrow> string" where
  "lower s = map lower_char s"

text \<open>\<open>str.split()\<close> without arguments: the runs of characters that are not whitespace.\<close>

definition is_space :: "char \<Rightarrow> bool" where
  "is_space c =
     (let n = (of_char c :: nat)
      in (9 \<le> n \<and> n \<le> 13) \<or> (28 \<le> n \<and> n \<le> 32) \<or> n = 133 \<or> n = 160)"

fun split_acc :: "string \<Rightarrow> string \<Rightarrow> string list" where
  "split_acc cur [] = (if cur = [] then [] else [cur])"
| "split_acc cur (c # cs) =
     (if is_space c then (if cur = [] then split_acc [] cs else cur # split_acc [] cs)
      else split_acc (cur @ [c]) cs)"

definition py_split :: "string \<Rightarrow> string list" where
  "py_split s = split_acc [] s"

definition py_strip :: "string \<Rightarrow> string" where
  "py_strip s = rev (dropWhile is_space (rev (dropWhile is_space s)))"

text \<open>The decimal digits: what \<open>\d\<close> matches among the code points below 256.\<close>

definition is_digit :: "char \<Rightarrow> bool" where
  "is_digit c = (let n = (of_char c :: nat) in 48 \<le> n \<and> n \<le> 57)"

definition digits_to_nat :: "string \<Rightarrow> nat" where
  "digits_to_nat ds = foldl (\<lambda>n c. 10 * n + (of_char c - 48)) 0 ds"

text \<open>
  \<open>int(s)\<close> for a string: surrounding whitespace, an optional sign, and decimal digits
  with single underscores between them; \<open>None\<close> is the \<open>ValueError\<close>.
\<close>

fun valid_int_digits :: "string \<Rightarrow> bool" where
  "valid_int_digits [] = False"
| "valid_int_digits [c] = is_digit c"
| "valid_int_digits (c # d # cs) =
     (if is_digit c
      then (if d = CHR ''_'' then valid_int_digits cs else valid_int_digits (d # cs))
      else False)"

definition py_int :: "string \<Rightarrow> int option" where
  "py_int s =
     (let t = py_strip s;
          negative = (t \<noteq> [] \<and> hd t = CHR ''-'');
          ds = (if t \<noteq> [] \<and> (hd t = CHR ''-'' \<or> hd t = CHR ''+'') then tl t else t)
      in if valid_int_digits ds
         then Some ((if negative then - 1 else 1) * int (digits_to_nat (filter is_digit ds)))
         else None)"

text \<open>\<open>str(n)\<close> for an integer, as an f-string formats it.\<close>

fun show_nat :: "nat \<Rightarrow> string" where
  "show_nat n =
     (if n < 10 then [char_of (48 + n)] else show_nat (n div 10) @ [char_of (48 + n mod 10)])"

declare show_nat.simps [simp del]

definition show_int :: "int \<Rightarrow> string" where
  "show_int i = (if i < 0 then CHR ''-'' # show_nat (nat (- i)) else show_nat (nat i))"

section \<open>The post extractor: \<open>process_post\<close>\<close>

text \<open>
  \<open>process_post\<close> is the same function in \<open>app.py\<close> and \<open>bot.py\<close>. The document that
  BeautifulSoup parses is modelled by what the function reads from it.

  An article carries its attributes \<open>data-content\<close>, \<open>id\<close> and \<open>data-author\<close>
  (\<open>None\<close> when absent), its text as \<open>get_text(separator=" ")\<close> gives it, the
  \<open>datetime\<close> attribute of its first \<open>time\<close> tag of class \<open>u-dt\<close> (\<open>None\<close> when
  there is no such tag or it has no such attribute), and the \<open>src\<close> values of its
  \<open>img\<close>, \<open>video\<close> and \<open>source\<close> tags that have one, in document order.

  For a page, \<open>p_title\<close> is \<open>None\<close> when there is no \<open>div\<close> of class \<open>p-title\<close>,
  \<open>Some None\<close> when that \<open>div\<close> has no \<open>h1\<close> of class \<open>p-title-value\<close> (reading its
  text then raises), and otherwise the text of the \<open>h1\<close> as \<open>get_text(strip=True)\<close>
  gives it.
\<close>

record article =
  data_content :: "string option"
  art_id :: "string option"
  data_author :: "string option"
  art_text :: string
  time_datetime :: "string option"
  imgs :: "string list"
  videos :: "string list"
  sources :: "string list"

record page =
  p_title :: "string option option"
  articles :: "article list"

text \<open>
  What the function takes from its libraries and from the network: \<open>urljoin lib s\<close> is
  \<open>urljoin(BASE_URL, s)\<close>; \<open>parse_datetime lib s\<close> is
  \<open>strptime(s, "%Y-%m-%dT%H:%M:%S%z").strftime("%Y-%m-%d")\<close>, \<open>None\<close> when that
  raises; \<open>fetch lib url\<close> is the parsed response of \<open>make_request(url)\<close>, \<open>None\<close> when
  the request raises.
\<close>

record library =
  urljoin :: "string \<Rightarrow> string"
  parse_datetime :: "string \<Rightarrow> string option"
  fetch :: "string \<Rightarrow> page option"

text \<open>
  The state: \<open>media_by_date\<close> maps a media type to a dictionary from date strings to
  lists of URLs, an association list in insertion order as a Python \<open>dict\<close> is;
  \<open>global_seen\<close> maps a media type to a set of URLs.
\<close>

datatype media_type = Images | Videos | Gifs

type_synonym media_store = "media_type \<Rightarrow> (string \<times> string list) list"

type_synonym seen_sets = "media_type \<Rightarrow> string set"

type_synonym extract_state = "media_store \<times> seen_sets"

text \<open>
  \<open>if post_date not in d: d[post_date] = []\<close> followed by \<open>d[post_date].append(src)\<close>.
\<close>

fun append_media :: "string \<Rightarrow> string \<Rightarrow> (string \<times> string list) list \<Rightarrow> (string \<times> string list) list" where
  "append_media post_date src [] = [(post_date, [src])]"
| "append_media post_date src ((k, l) # kvs) =
     (if k = post_date then (k, l @ [src]) # kvs else (k, l) # append_media post_date src kvs)"

text \<open>The block that ends each of the three loops over media tags.\<close>

definition add_media :: "media_type \<Rightarrow> string \<Rightarrow> string \<Rightarrow> extract_state \<Rightarrow> extract_state" where
  "add_media media_type post_date src st =
     (let media_by_date = fst st; global_seen = snd st
      in if src \<notin> global_seen media_type
         then (media_by_date(media_type := append_media post_date src (media_by_date media_type)),
               global_seen(media_type := insert src (global_seen media_type)))
         else st)"

definition resolve_src :: "library \<Rightarrow> string \<Rightarrow> string" where
  "resolve_src lib raw = (if startswith raw ''/'' then urljoin lib raw else raw)"

definition unwanted :: "string \<Rightarrow> bool" where
  "unwanted src =
     (contains ''addonflare/awardsystem/icons/'' src \<or>
      list_ex (\<lambda>keyword. contains keyword (lower src))
        [''avatars'', ''ozzmodz_badges_badge'', ''premium'', ''likes''])"

definition process_img :: "library \<Rightarrow> string \<Rightarrow> extract_state \<Rightarrow> string \<Rightarrow> extract_state" where
  "process_img lib post_date st raw =
     (let src = resolve_src lib raw;
          media_type = (if endswith (lower src) ''.gif'' then Gifs else Images)
      in if startswith src ''data:image'' \<or> unwanted src then st
         else add_media media_type post_date src st)"

text \<open>The loops over the \<open>video\<close> tags and over the \<open>source\<close> tags have the same body.\<close>

definition process_video :: "library \<Rightarrow> string \<Rightarrow> extract_state \<Rightarrow> string \<Rightarrow> extract_state" where
  "process_video lib post_date st raw =
     (let src = resolve_src lib raw;
          media_type = Videos
      in if startswith src ''data:'' \<or> unwanted src then st
         else add_media media_type post_date src st)"

definition extract_post_date :: "library \<Rightarrow> article \<Rightarrow> string option" where
  "extract_post_date lib a =
     (case time_datetime a of None \<Rightarrow> None | Some s \<Rightarrow> parse_datetime lib s)"

text \<open>\<open>extract_post_date(article) or f"{year}-01-01"\<close>: an empty string counts as absent.\<close>

definition post_date_of :: "library \<Rightarrow> int \<Rightarrow> article \<Rightarrow> string" where
  "post_date_of lib year a =
     (case extract_post_date lib a of
        None \<Rightarrow> show_int year @ ''-01-01''
      | Some d \<Rightarrow> if d = [] then show_int year @ ''-01-01'' else d)"

text \<open>
  Whether the body of the loop goes on after the check of the year: it does not when
  the year parses and is outside the range, and it does when the year does not parse.
\<close>

definition in_year_range :: "int \<Rightarrow> int \<Rightarrow> string \<Rightarrow> bool" where
  "in_year_range start_year end_year post_date =
     (case py_int (takeWhile (\<lambda>c. c \<noteq> CHR ''-'') post_date) of
        Some post_year \<Rightarrow> \<not> (post_year < start_year \<or> post_year > end_year)
      | None \<Rightarrow> True)"

definition process_article ::
  "library \<Rightarrow> int \<Rightarrow> int \<Rightarrow> int \<Rightarrow> article \<Rightarrow> extract_state \<Rightarrow> extract_state" where
  "process_article lib year start_year end_year a st =
     (let post_date = post_date_of lib year a
      in if \<not> in_year_range start_year end_year post_date then st
         else foldl (process_video lib post_date)
                (foldl (process_video lib post_date)
                   (foldl (process_img lib post_date) st (imgs a))
                   (videos a))
                (sources a))"

text \<open>
  The loop over the articles. The element \<open>None\<close> is the result of a \<open>soup.find\<close> that
  found nothing: reading it raises, and the exception handler of \<open>process_post\<close> ends the
  function with what was stored before.
\<close>

fun process_articles ::
  "library \<Rightarrow> int \<Rightarrow> int \<Rightarrow> int \<Rightarrow> article option list \<Rightarrow> extract_state \<Rightarrow> extract_state" where
  "process_articles lib year start_year end_year [] st = st"
| "process_articles lib year start_year end_year (None # rest) st = st"
| "process_articles lib year start_year end_year (Some a # rest) st =
     process_articles lib year start_year end_year rest
       (process_article lib year start_year end_year a st)"

text \<open>\<open>re.search(r'c\[newer_than\]=(\d{4})-', post_link)\<close>: the first match, its group.\<close>

fun search_newer_than :: "string \<Rightarrow> string option" where
  "search_newer_than [] = None"
| "search_newer_than (c # cs) =
     (let r = drop 14 (c # cs)
      in if prefix ''c[newer_than]='' (c # cs) \<and> 5 \<le> length r \<and>
            list_all is_digit (take 4 r) \<and> r ! 4 = CHR ''-''
         then Some (take 4 r) else search_newer_than cs)"

text \<open>\<open>re.search(r'post-(\d+)', post_link)\<close>: the first match, its group.\<close>

fun search_post_id :: "string \<Rightarrow> string option" where
  "search_post_id [] = None"
| "search_post_id (c # cs) =
     (if prefix ''post-'' (c # cs) \<and> takeWhile is_digit (drop 5 (c # cs)) \<noteq> []
      then Some (takeWhile is_digit (drop 5 (c # cs))) else search_post_id cs)"

definition is_post :: "string \<Rightarrow> article \<Rightarrow> bool" where
  "is_post n a = (data_content a = Some (''post-'' @ n) \<and> art_id a = Some (''js-post-'' @ n))"

definition select_articles :: "string \<Rightarrow> page \<Rightarrow> article option list" where
  "select_articles post_link pg =
     (case search_post_id post_link of
        Some n \<Rightarrow> [find (is_post n) (articles pg)]
      | None \<Rightarrow> map Some (articles pg))"

fun title_matches_loop :: "string \<Rightarrow> string list \<Rightarrow> bool" where
  "title_matches_loop page_title [] = False"
| "title_matches_loop page_title (part # parts) =
     (if startswith page_title part \<or> endswith page_title part then True
      else if contains part (map (\<lambda>c. if c = CHR ''-'' then CHR '' '' else c) page_title) then True
      else title_matches_loop page_title parts)"

definition article_matches :: "string \<Rightarrow> article option \<Rightarrow> bool" where
  "article_matches username_lower ao =
     (case ao of
        None \<Rightarrow> False
      | Some a \<Rightarrow>
          contains username_lower (lower (art_text a)) \<or>
          contains username_lower
            (lower (case data_author a of None \<Rightarrow> [] | Some s \<Rightarrow> s)))"

text \<open>The body of \<open>process_post\<close> after the page has been fetched and parsed.\<close>

definition process_page ::
  "library \<Rightarrow> string \<Rightarrow> string \<Rightarrow> int \<Rightarrow> int \<Rightarrow> page \<Rightarrow> extract_state \<Rightarrow> extract_state" where
  "process_page lib post_link username start_year end_year pg st =
     (let year = (case search_newer_than post_link of
                    Some y \<Rightarrow> int (digits_to_nat y)
                  | None \<Rightarrow> end_year)
      in case p_title pg of
           Some None \<Rightarrow> st
         | title_div \<Rightarrow>
            (let page_title = (case title_div of Some (Some t) \<Rightarrow> lower t | _ \<Rightarrow> []);
                 username_lower = lower username;
                 username_parts = py_split username_lower;
                 title_matches = (page_title \<noteq> [] \<and> title_matches_loop page_title username_parts);
                 arts = select_articles post_link pg
             in if arts = [] then st
                else if title_matches then process_articles lib year start_year end_year arts st
                else
                  (let filtered_articles = filter (article_matches username_lower) arts
                   in if filtered_articles = [] then st
                      else process_articles lib year start_year end_year filtered_articles st)))"

definition process_post ::
  "library \<Rightarrow> string \<Rightarrow> string \<Rightarrow> int \<Rightarrow> int \<Rightarrow> extract_state \<Rightarrow> extract_state" where
  "process_post lib post_link username start_year end_year st =
     (case fetch lib post_link of
        None \<Rightarrow> st
      | Some pg \<Rightarrow> process_page lib post_link username start_year end_year pg st)"

section \<open>The crawl over the subjects\<close>

text \<open>
  The part of the orchestrator (\<open>telegram_webhook\<close> in \<open>app.py\<close>, \<open>handle_message\<close> in
  \<open>bot.py\<close>) that touches the stores: \<open>media_by_date_per_username\<close> holds one store
  for each username, \<open>global_seen\<close> is created once, before the loop over the
  usernames, and every call of \<open>process_post\<close> gets the store of its username and that
  one \<open>global_seen\<close>. The post links that the windows of a username lead to are a
  parameter, \<open>post_links_of\<close>: collecting them reads neither the stores nor the seen
  sets. The calls for one username are taken in the order of the list, one after the
  other.
\<close>

type_synonym crawl_state = "(string \<Rightarrow> media_store) \<times> seen_sets"

definition empty_store :: media_store where
  "empty_store = (\<lambda>media_type. [])"

definition empty_seen :: seen_sets where
  "empty_seen = (\<lambda>media_type. {})"

definition crawl_username ::
  "library \<Rightarrow> (string \<Rightarrow> string list) \<Rightarrow> int \<Rightarrow> int \<Rightarrow> crawl_state \<Rightarrow> string \<Rightarrow> crawl_state" where
  "crawl_username lib post_links_of start_year end_year cst username =
     (let media_by_date_per_username = fst cst; global_seen = snd cst;
          all_post_links = post_links_of username;
          st = foldl (\<lambda>st link. process_post lib link username start_year end_year st)
                 (media_by_date_per_username username, global_seen) all_post_links
      in (media_by_date_per_username(username := fst st), snd st))"

definition crawl ::
  "library \<Rightarrow> (string \<Rightarrow> string list) \<Rightarrow> int \<Rightarrow> int \<Rightarrow> string list \<Rightarrow> crawl_state" where
  "crawl lib post_links_of start_year end_year usernames =
     foldl (crawl_username lib post_links_of start_year end_year)
       ((\<lambda>username. empty_store), empty_seen) usernames"

text \<open>All URLs of one dictionary of a store, in order.\<close>

definition urls :: "(string \<times> string list) list \<Rightarrow> string list" where
  "urls d = concat (map snd d)"

section \<open>The media a post offers\<close>

text \<open>
  The control flow of \<open>process_post\<close> reads the stores only in the block that adds a
  URL, so its effect on a state is that of a list of offers (media type, date, URL),
  computed from the page alone, each added unless its URL has been seen. The functions
  of this section compute that list; they follow the functions of the extractor branch
  by branch.
\<close>

type_synonym offer = "media_type \<times> string \<times> string"

definition apply_offers :: "offer list \<Rightarrow> extract_state \<Rightarrow> extract_state" where
  "apply_offers xs st = foldl (\<lambda>st x. add_media (fst x) (fst (snd x)) (snd (snd x)) st) st xs"

definition img_offers :: "library \<Rightarrow> string \<Rightarrow> string list \<Rightarrow> offer list" where
  "img_offers lib post_date raws =
     concat (map (\<lambda>raw.
       (let src = resolve_src lib raw;
            media_type = (if endswith (lower src) ''.gif'' then Gifs else Images)
        in if startswith src ''data:image'' \<or> unwanted src then []
           else [(media_type, post_date, src)])) raws)"

definition video_offers :: "library \<Rightarrow> string \<Rightarrow> string list \<Rightarrow> offer list" where
  "video_offers lib post_date raws =
     concat (map (\<lambda>raw.
       (let src = resolve_src lib raw
        in if startswith src ''data:'' \<or> unwanted src then []
           else [(Videos, post_date, src)])) raws)"

definition article_offers :: "library \<Rightarrow> int \<Rightarrow> int \<Rightarrow> int \<Rightarrow> article \<Rightarrow> offer list" where
  "article_offers lib year start_year end_year a =
     (let post_date = post_date_of lib year a
      in if \<not> in_year_range start_year end_year post_date then []
         else img_offers lib post_date (imgs a) @ video_offers lib post_date (videos a) @
              video_offers lib post_date (sources a))"

fun articles_offers ::
  "library \<Rightarrow> int \<Rightarrow> int \<Rightarrow> int \<Rightarrow> article option list \<Rightarrow> offer list" where
  "articles_offers lib year start_year end_year [] = []"
| "articles_offers lib year start_year end_year (None # rest) = []"
| "articles_offers lib year start_year end_year (Some a # rest) =
     article_offers lib year start_year end_year a @
     articles_offers lib year start_year end_year rest"

definition page_offers ::
  "library \<Rightarrow> string \<Rightarrow> string \<Rightarrow> int \<Rightarrow> int \<Rightarrow> page \<Rightarrow> offer list" where
  "page_offers lib post_link username start_year end_year pg =
     (let year = (case search_newer_than post_link of
                    Some y \<Rightarrow> int (digits_to_nat y)
                  | None \<Rightarrow> end_year)
      in case p_title pg of
           Some None \<Rightarrow> []
         | title_div \<Rightarrow>
            (let page_title = (case title_div of Some (Some t) \<Rightarrow> lower t | _ \<Rightarrow> []);
                 username_lower = lower username;
                 username_parts = py_split username_lower;
                 title_matches = (page_title \<noteq> [] \<and> title_matches_loop page_title username_parts);
                 arts = select_articles post_link pg
             in if title_matches then articles_offers lib year start_year end_year arts
                else articles_offers lib year start_year end_year
                       (filter (article_matches username_lower) arts)))"

definition post_offers :: "library \<Rightarrow> string \<Rightarrow> string \<Rightarrow> int \<Rightarrow> int \<Rightarrow> offer list" where
  "post_offers lib post_link username start_year end_year =
     (case fetch lib post_link of
        None \<Rightarrow> []
      | Some pg \<Rightarrow> page_offers lib post_link username start_year end_year pg)"

text \<open>
  A store and the seen sets agree when, for each media type, the URLs of the store are
  all different and all seen.
\<close>

definition store_consistent :: "extract_state \<Rightarrow> bool" where
  "store_consistent st =
     list_all (\<lambda>media_type. distinct (urls (fst st media_type)) \<and>
                            set (urls (fst st media_type)) \<subseteq> snd st media_type)
       [Images, Videos, Gifs]"

text \<open>Whether a URL is stored under a date in a dictionary of a store.\<close>

definition stored :: "(string \<times> string list) list \<Rightarrow> string \<Rightarrow> string \<Rightarrow> bool" where
  "stored d post_date url = list_ex (\<lambda>kv. fst kv = post_date \<and> url \<in> set (snd kv)) d"

text \<open>What the three loops let through.\<close>

definition accepted :: "media_type \<Rightarrow> string \<Rightarrow> bool" where
  "accepted media_type src =
     (\<not> unwanted src \<and>
      (if media_type = Videos then \<not> startswith src ''data:'' else \<not> startswith src ''data:image''))"


definition title_matches :: "string \<Rightarrow> page \<Rightarrow> bool" where
  "title_matches username pg =
     (case p_title pg of
        Some (Some t) \<Rightarrow>
          lower t \<noteq> [] \<and> title_matches_loop (lower t) (py_split (lower username))
      | _ \<Rightarrow> False)"


text \<open>The examples: a library, pages and links.\<close>

definition lib_example :: "(string \<Rightarrow> page option) \<Rightarrow> library" where
  "lib_example f =
     \<lparr>urljoin = (\<lambda>s. ''https://desifakes.com'' @ s),
      parse_datetime = (\<lambda>s. if length s = 24 then Some (take 10 s) else None),
      fetch = f\<rparr>"

definition art_plain :: article where
  "art_plain =
     \<lparr>data_content = Some ''post-11'', art_id = Some ''js-post-11'',
      data_author = Some ''someone'', art_text = ''new photos'', time_datetime = None,
      imgs = [''https://x/a.jpg''], videos = [], sources = []\<rparr>"

definition art_dated :: article where
  "art_dated =
     \<lparr>data_content = Some ''post-12'', art_id = Some ''js-post-12'',
      data_author = Some ''someone'', art_text = ''more photos'',
      time_datetime = Some ''2020-05-06T10:11:12+0000'',
      imgs = [''/b.jpg'', ''https://x/c.GIF'', ''https://x/avatars/1.png'', ''data:text/plain,x''],
      videos = [''/v.mp4''], sources = [''/v.mp4'', ''data:video/mp4;base64,AAAA'']\<rparr>"

definition page_example :: page where
  "page_example = \<lparr>p_title = Some (Some ''Jane and Mary''), articles = [art_plain, art_dated]\<rparr>"

definition link_thread :: string where
  "link_thread = ''https://desifakes.com/threads/x.1/''"

definition link_post :: string where
  "link_post = ''https://desifakes.com/threads/x.1/post-12''"

definition fetch_example :: "string \<Rightarrow> page option" where
  "fetch_example url =
     (if url = link_thread \<or> url = link_post then Some page_example else None)"

definition links_example :: "string \<Rightarrow> string list" where
  "links_example username = [link_thread]"

chapter \<open>Properties\<close>

section \<open>The retry policy of \<open>make_request\<close>\<close>








section \<open>The windows of \<open>generate_links\<close>\<close>

lemma gen_window_start_not_future:
  "(y, u, s, e) \<in> set (gen_window now enc flag year p) \<Longrightarrow>
     \<not> dt_less now (fst s, fst (snd s), snd (snd s), 0)"
  by (auto simp: gen_window_def Let_def strptime_def split: option.splits if_splits)

lemma generate_links_start_not_future:
  assumes "generate_links now start_year end_year username title_only = Inr ls"
          "(y, u, s, e) \<in> set ls"
  shows "\<not> dt_less now (fst s, fst (snd s), snd (snd s), 0)"
proof -
  from assms obtain enc flag year p where
    "(y, u, s, e) \<in> set (gen_window now enc flag year p)"
    by (auto simp: generate_links_def Let_def split: if_splits)
  then show ?thesis by (rule gen_window_start_not_future)
qed

text \<open>
  Claim C5 at a failing input: \<open>generate_links\<close> of \<open>app.py\<close>, run at 10:00 on
  2024-03-13 for the year 2024. The window of the table that starts on 03-13 is not in
  the future, its end 04-03 is clipped to today, and the check \<open>start_dt >= end_dt\<close>
  that follows still compares with the end before clipping: the second link that is
  emitted has the start date 2024-03-13 and the end date 2024-03-13.
\<close>

theorem generate_links_emits_empty_window:
  "generate_links (2024, 3, 13, 36000) 2024 2024 ''jane doe'' False = Inr
    [(2024, \<lparr>q = ''jane+doe'', newer_than = (2023, 12, 13), older_than = (2024, 3, 13),
             title_only_flag = 0\<rparr>, (2023, 12, 13), (2024, 3, 13)),
     (2024, \<lparr>q = ''jane+doe'', newer_than = (2024, 3, 13), older_than = (2024, 3, 13),
             title_only_flag = 0\<rparr>, (2024, 3, 13), (2024, 3, 13)),
     (2024, \<lparr>q = ''jane+doe'', newer_than = (2024, 2, 26), older_than = (2024, 3, 13),
             title_only_flag = 0\<rparr>, (2024, 2, 26), (2024, 3, 13)),
     (2024, \<lparr>q = ''jane+doe'', newer_than = (2024, 2, 13), older_than = (2024, 3, 3),
             title_only_flag = 0\<rparr>, (2024, 2, 13), (2024, 3, 3)),
     (2024, \<lparr>q = ''jane+doe'', newer_than = (2024, 1, 29), older_than = (2024, 2, 18),
             title_only_flag = 0\<rparr>, (2024, 1, 29), (2024, 2, 18)),
     (2024, \<lparr>q = ''jane+doe'', newer_than = (2024, 1, 13), older_than = (2024, 2, 3),
             title_only_flag = 0\<rparr>, (2024, 1, 13), (2024, 2, 3)),
     (2024, \<lparr>q = ''jane+doe'', newer_than = (2023, 12, 29), older_than = (2024, 3, 13),
             title_only_flag = 0\<rparr>, (2023, 12, 29), (2024, 3, 13))] \<and>
   \<not> date_less (2024, 3, 13) (2024, 3, 13)"
  by (simp add: generate_links_def gen_window_def months_def strptime_def days_in_month_def
        is_leap_def encode_username_def upto_rec1 Let_def)

text \<open>
  \<open>generate_links\<close> of \<open>bot.py\<close> has no check of the range at all, and does the same on
  a day on which one of its windows starts.
\<close>

lemma generate_links_bot_emits_empty_window:
  "generate_links_bot (2024, 3, 29, 36000) 2024 2024 ''jane doe'' False = Inr
    [(2024, \<lparr>q = ''jane+doe'', newer_than = (2024, 3, 29), older_than = (2024, 3, 29),
             title_only_flag = 0\<rparr>, (2024, 3, 29), (2024, 3, 29)),
     (2024, \<lparr>q = ''jane+doe'', newer_than = (2024, 2, 26), older_than = (2024, 3, 29),
             title_only_flag = 0\<rparr>, (2024, 2, 26), (2024, 3, 29)),
     (2024, \<lparr>q = ''jane+doe'', newer_than = (2024, 1, 29), older_than = (2024, 3, 3),
             title_only_flag = 0\<rparr>, (2024, 1, 29), (2024, 3, 3))]"
  by (simp add: generate_links_bot_def gen_window_bot_def months_bot_def strptime_def
        days_in_month_def is_leap_def encode_username_def upto_rec1 Let_def md_greater_def)

section \<open>The recursion of \<open>split_url\<close>\<close>

text \<open>
  A child window is buffered again by the call that splits it, so a window of eight days
  or more never gets smaller than that: where the probe keeps answering with a page
  count at the ceiling or above for windows of eleven days or more, the first child
  satisfies the same conditions as its parent, and no amount of fuel suffices.
\<close>

lemma split_url_diverges:
  assumes busy: "\<And>b. snd b - fst b \<ge> 11 \<Longrightarrow> \<exists>n. probe b = Some n \<and> max_pages \<le> n"
  shows "0 \<le> fst w \<Longrightarrow> fst w + 8 \<le> snd w \<Longrightarrow> snd w + 3 \<le> now \<Longrightarrow>
         split_url fuel probe now max_pages w = None"
proof (induction fuel arbitrary: w)
  case 0
  show ?case by simp
next
  case (Suc fuel)
  define b where "b = buffered now w"
  have b: "fst b = (if fst w - 3 < 0 then 0 else fst w - 3)" "snd b = snd w + 3"
    using Suc.prems by (simp_all add: b_def buffered_def Let_def)
  have span: "snd b - fst b \<ge> 11" using b Suc.prems by (auto split: if_splits)
  obtain n where n: "probe b = Some n" "max_pages \<le> n" using busy[OF span] by blast
  define c where "c = first_range now b"
  have c: "fst c = fst b" "snd c = fst b + (snd b - fst b) div 2 + 3"
    using Suc.prems b span by (auto simp: c_def first_range_def Let_def split: if_splits)
  have "0 \<le> fst c" "fst c + 8 \<le> snd c" "snd c + 3 \<le> now"
    using c b span Suc.prems by (auto split: if_splits)
  then have "split_url fuel probe now max_pages c = None" by (rule Suc.IH)
  then show ?case
    using Suc.prems n span by (simp add: b_def[symmetric] c_def[symmetric])
qed

text \<open>
  Claim C2 at a failing input: the window from 2020-01-01 (day 3652) to 2020-01-13, split
  on day 5000 for a subject with ten pages in every window of eleven days or more. The
  buffered window has 18 days, its first child is 12 days long and is buffered to 18 days
  again, and so on: the recursion never reaches a base case.
\<close>

theorem split_url_never_returns:
  "split_url fuel probe_busy 5000 10 (3652, 3664) = None"
  by (rule split_url_diverges) (auto simp: probe_busy_def)

text \<open>
  \<open>split_url\<close> of \<open>bot.py\<close> has no smallest span: it returns only where the probe fails
  or answers with a page count below the ceiling.
\<close>

lemma split_url_bot_diverges:
  assumes busy: "\<And>b. \<exists>n. probe b = Some n \<and> MAX_PAGES_PER_SEARCH \<le> n \<and> max_pages \<le> n"
  shows "split_url_bot fuel probe max_pages w = None"
proof -
  have "\<forall>w m. m \<in> {max_pages, MAX_PAGES_PER_SEARCH} \<longrightarrow> split_url_bot fuel probe m w = None"
  proof (induction fuel)
    case 0
    show ?case by simp
  next
    case (Suc fuel)
    show ?case
    proof (intro allI impI)
      fix w m assume m: "m \<in> {max_pages, MAX_PAGES_PER_SEARCH}"
      obtain n where n: "probe w = Some n" "MAX_PAGES_PER_SEARCH \<le> n" "max_pages \<le> n"
        using busy[of w] by blast
      then have "\<not> n < m" using m by auto
      moreover have "split_url_bot fuel probe MAX_PAGES_PER_SEARCH
                       (fst w, fst w + (snd w - fst w) div 2 - 1) = None"
        using Suc.IH by simp
      ultimately show "split_url_bot (Suc fuel) probe m w = None"
        using n(1) by (simp add: Let_def)
    qed
  qed
  then show ?thesis by blast
qed

section \<open>The result of \<open>split_url\<close>\<close>

lemma buffered_end_le_now: "snd (buffered now w) \<le> now"
  by (simp add: buffered_def Let_def)

lemma buffered_start_nonneg: "0 \<le> fst (buffered now w)"
  by (simp add: buffered_def Let_def)

lemma children_of_split:
  assumes "snd b \<le> now" "1 < snd b - fst b"
  shows "first_range now b = (fst b, min (fst b + (snd b - fst b) div 2 + 3) now)"
        "second_range now b = (fst b + (snd b - fst b) div 2 - 3, snd b)"
  using assms by (auto simp: first_range_def second_range_def Let_def min_def)

lemma children_proper:
  assumes "snd b \<le> now" "1 < snd b - fst b"
  shows "fst (first_range now b) < snd (first_range now b)"
        "fst (second_range now b) < snd (second_range now b)"
  using assms by (auto simp: children_of_split min_def)

lemma split_url_Suc_split:
  assumes "fst w < snd w" "probe (buffered now w) = Some n" "max_pages \<le> n"
          "1 < snd (buffered now w) - fst (buffered now w)"
  shows "split_url (Suc fuel) probe now max_pages w =
           (case split_url fuel probe now max_pages (first_range now (buffered now w)) of
              None \<Rightarrow> None
            | Some xs \<Rightarrow>
               (case split_url fuel probe now max_pages (second_range now (buffered now w)) of
                  None \<Rightarrow> None
                | Some ys \<Rightarrow> Some (xs @ ys)))"
  using assms by (simp add: Let_def)

lemma split_url_cases:
  assumes "split_url (Suc fuel) probe now max_pages w = Some ws" "fst w < snd w"
  obtains (leaf) "ws = [buffered now w]"
      "probe (buffered now w) = None \<or> (\<exists>n. probe (buffered now w) = Some n \<and> n < max_pages)
        \<or> snd (buffered now w) - fst (buffered now w) \<le> 1"
    | (node) xs ys where "ws = xs @ ys"
      "split_url fuel probe now max_pages (first_range now (buffered now w)) = Some xs"
      "split_url fuel probe now max_pages (second_range now (buffered now w)) = Some ys"
      "1 < snd (buffered now w) - fst (buffered now w)"
  using assms
  by (auto simp: Let_def split: option.splits if_splits)

lemma split_url_leaves:
  "split_url fuel probe now max_pages w = Some ws \<Longrightarrow> fst w < snd w \<Longrightarrow> v \<in> set ws \<Longrightarrow>
     (\<exists>n. probe v = Some n \<and> n < max_pages) \<or> probe v = None \<or> snd v - fst v \<le> 1"
proof (induction fuel arbitrary: w ws)
  case 0
  then show ?case by simp
next
  case (Suc fuel)
  from Suc.prems(1,2) show ?case
  proof (cases rule: split_url_cases)
    case leaf
    then show ?thesis using Suc.prems(3) by auto
  next
    case (node xs ys)
    note proper = children_proper[OF buffered_end_le_now node(4)]
    from Suc.prems(3) node(1) consider "v \<in> set xs" | "v \<in> set ys" by auto
    then show ?thesis
    proof cases
      case 1
      then show ?thesis using Suc.IH[OF node(2) proper(1)] by blast
    next
      case 2
      then show ?thesis using Suc.IH[OF node(3) proper(2)] by blast
    qed
  qed
qed

lemma split_url_covers:
  "split_url fuel probe now max_pages w = Some ws \<Longrightarrow> fst w < snd w \<Longrightarrow>
   fst (buffered now w) \<le> d \<Longrightarrow> d \<le> snd (buffered now w) \<Longrightarrow>
     \<exists>v \<in> set ws. fst v \<le> d \<and> d \<le> snd v"
proof (induction fuel arbitrary: w ws)
  case 0
  then show ?case by simp
next
  case (Suc fuel)
  define b where "b = buffered now w"
  have bnow: "snd b \<le> now" and b0: "0 \<le> fst b"
    by (simp_all add: b_def buffered_end_le_now buffered_start_nonneg)
  have d: "fst b \<le> d" "d \<le> snd b" using Suc.prems(3,4) by (simp_all add: b_def)
  from Suc.prems(1,2) show ?case
  proof (cases rule: split_url_cases)
    case leaf
    then show ?thesis using Suc.prems(3,4) by auto
  next
    case (node xs ys)
    have span: "1 < snd b - fst b" using node(4) by (simp add: b_def)
    note proper = children_proper[OF bnow span]
    note ch = children_of_split[OF bnow span]
    show ?thesis
    proof (cases "d \<le> snd (first_range now b)")
      case True
      have "fst (buffered now (first_range now b)) \<le> d"
        using d b0 by (auto simp: ch buffered_def Let_def)
      moreover have "d \<le> snd (buffered now (first_range now b))"
        using True bnow by (auto simp: ch buffered_def Let_def min_def split: if_splits)
      ultimately obtain v where "v \<in> set xs" "fst v \<le> d" "d \<le> snd v"
        using Suc.IH[OF node(2)[folded b_def] proper(1)] by blast
      then show ?thesis using node(1) by auto
    next
      case False
      then have "fst b + (snd b - fst b) div 2 + 3 < d"
        using d bnow by (auto simp: ch min_def split: if_splits)
      then have "fst (buffered now (second_range now b)) \<le> d"
        using b0 d by (auto simp: ch buffered_def Let_def)
      moreover have "d \<le> snd (buffered now (second_range now b))"
        using d bnow by (auto simp: ch buffered_def Let_def)
      ultimately obtain v where "v \<in> set ys" "fst v \<le> d" "d \<le> snd v"
        using Suc.IH[OF node(3)[folded b_def] proper(2)] by blast
      then show ?thesis using node(1) by auto
    qed
  qed
qed

text \<open>
  Claim C4, as the code has it, for \<open>split_url\<close> of \<open>app.py\<close> on a window with
  \<open>start < end\<close>, when it returns. Each returned window resolved to fewer than
  \<open>max_pages\<close> pages when it was probed, or its probe failed and it was returned
  unsplit, or it is indivisible (a span of at most one day). The returned windows cover
  the buffered range of the input. Where a window is split, the children are
  \<open>(start, min (mid + 3) now)\<close> and \<open>(mid - 3, end)\<close> of its buffered range, and the
  result is the concatenation of the results for the two.
\<close>

theorem split_url_result:
  assumes "split_url fuel probe now max_pages w = Some ws" "fst w < snd w"
  shows "(\<forall>v \<in> set ws. (\<exists>n. probe v = Some n \<and> n < max_pages) \<or> probe v = None \<or> snd v - fst v \<le> 1) \<and>
         (\<forall>d. fst (buffered now w) \<le> d \<and> d \<le> snd (buffered now w) \<longrightarrow>
               (\<exists>v \<in> set ws. fst v \<le> d \<and> d \<le> snd v)) \<and>
         (probe (buffered now w) = Some n \<and> max_pages \<le> n \<and>
               1 < snd (buffered now w) - fst (buffered now w) \<longrightarrow>
            first_range now (buffered now w) =
              (fst (buffered now w),
               min (fst (buffered now w) + (snd (buffered now w) - fst (buffered now w)) div 2 + 3) now) \<and>
            second_range now (buffered now w) =
              (fst (buffered now w) + (snd (buffered now w) - fst (buffered now w)) div 2 - 3,
               snd (buffered now w)) \<and>
            split_url (Suc k) probe now max_pages w =
              (case split_url k probe now max_pages (first_range now (buffered now w)) of
                 None \<Rightarrow> None
               | Some xs \<Rightarrow>
                  (case split_url k probe now max_pages (second_range now (buffered now w)) of
                     None \<Rightarrow> None
                   | Some ys \<Rightarrow> Some (xs @ ys))))"
proof (intro conjI ballI allI impI)
  fix v assume "v \<in> set ws"
  then show "(\<exists>n. probe v = Some n \<and> n < max_pages) \<or> probe v = None \<or> snd v - fst v \<le> 1"
    using split_url_leaves[OF assms] by blast
next
  fix d assume "fst (buffered now w) \<le> d \<and> d \<le> snd (buffered now w)"
  then show "\<exists>v \<in> set ws. fst v \<le> d \<and> d \<le> snd v"
    using split_url_covers[OF assms] by blast
next
  assume h: "probe (buffered now w) = Some n \<and> max_pages \<le> n \<and>
               1 < snd (buffered now w) - fst (buffered now w)"
  note ch = children_of_split[OF buffered_end_le_now, of now w]
  from h show "first_range now (buffered now w) =
              (fst (buffered now w),
               min (fst (buffered now w) + (snd (buffered now w) - fst (buffered now w)) div 2 + 3) now)"
    using ch(1) by blast
  from h show "second_range now (buffered now w) =
              (fst (buffered now w) + (snd (buffered now w) - fst (buffered now w)) div 2 - 3,
               snd (buffered now w))"
    using ch(2) by blast
  from h show "split_url (Suc k) probe now max_pages w =
              (case split_url k probe now max_pages (first_range now (buffered now w)) of
                 None \<Rightarrow> None
               | Some xs \<Rightarrow>
                  (case split_url k probe now max_pages (second_range now (buffered now w)) of
                     None \<Rightarrow> None
                   | Some ys \<Rightarrow> Some (xs @ ys)))"
    using split_url_Suc_split[OF assms(2), of probe now n max_pages k] by blast
qed

lemma split_url_example:
  "split_url 3 probe_example 5000 10 (3652, 3700) = Some [(3646, 3682), (3670, 3706)]"
  by (simp add: probe_example_def buffered_def first_range_def second_range_def Let_def numeral_3_eq_3)

text \<open>
  The theorem at a window of 48 days that is split once: 2020-01-01 to 2020-02-18, with
  \<open>probe_example\<close>.
\<close>

theorem split_url_result_witness:
  "split_url 3 probe_example 5000 10 (3652, 3700) = Some [(3646, 3682), (3670, 3706)] \<and>
   fst (3652 :: int, 3700 :: int) < snd (3652 :: int, 3700 :: int) \<and>
   buffered 5000 (3652, 3700) = (3649, 3703) \<and>
   probe_example (3649, 3703) = Some 15 \<and>
   first_range 5000 (3649, 3703) = (3649, 3679) \<and>
   second_range 5000 (3649, 3703) = (3673, 3703) \<and>
   probe_example (3646, 3682) = Some 2 \<and> probe_example (3670, 3706) = Some 2 \<and>
   (\<exists>v \<in> set [(3646 :: int, 3682 :: int), (3670, 3706)]. fst v \<le> 3690 \<and> 3690 \<le> snd v)"
  using split_url_result[of 3 probe_example 5000 10 "(3652, 3700)" "[(3646, 3682), (3670, 3706)]" 15 2]
        split_url_example
  by (simp add: probe_example_def buffered_def first_range_def second_range_def Let_def)

text \<open>
  Claim C4, as the specification words it, fails where the probe fails: the buffered
  window is returned unsplit, it has not resolved to fewer pages than the ceiling, and
  it is 54 days long.
\<close>

theorem split_url_probe_failure_counterexample:
  "split_url 1 (\<lambda>w. None) 5000 10 (3652, 3700) = Some [(3649, 3703)] \<and>
   (\<lambda>w. None :: nat option) (3649, 3703) = None \<and>
   \<not> ((3703::int) - 3649 \<le> 1)"
  by (simp add: buffered_def Let_def)

section \<open>The extractor as a list of offers\<close>

lemma apply_offers_Nil: "apply_offers [] st = st"
  by (simp add: apply_offers_def)

lemma apply_offers_Cons:
  "apply_offers (x # xs) st = apply_offers xs (add_media (fst x) (fst (snd x)) (snd (snd x)) st)"
  by (simp add: apply_offers_def)

lemma apply_offers_append: "apply_offers (xs @ ys) st = apply_offers ys (apply_offers xs st)"
  by (simp add: apply_offers_def)

lemma foldl_process_img:
  "foldl (process_img lib post_date) st raws = apply_offers (img_offers lib post_date raws) st"
proof (induction raws arbitrary: st)
  case Nil
  show ?case by (simp add: img_offers_def apply_offers_Nil)
next
  case (Cons raw raws)
  have "img_offers lib post_date (raw # raws) =
          img_offers lib post_date [raw] @ img_offers lib post_date raws"
    by (simp add: img_offers_def)
  moreover have "process_img lib post_date st raw = apply_offers (img_offers lib post_date [raw]) st"
    by (simp add: process_img_def img_offers_def Let_def apply_offers_Nil apply_offers_Cons)
  ultimately show ?case using Cons.IH by (simp add: apply_offers_append)
qed

lemma foldl_process_video:
  "foldl (process_video lib post_date) st raws = apply_offers (video_offers lib post_date raws) st"
proof (induction raws arbitrary: st)
  case Nil
  show ?case by (simp add: video_offers_def apply_offers_Nil)
next
  case (Cons raw raws)
  have "video_offers lib post_date (raw # raws) =
          video_offers lib post_date [raw] @ video_offers lib post_date raws"
    by (simp add: video_offers_def)
  moreover have "process_video lib post_date st raw = apply_offers (video_offers lib post_date [raw]) st"
    by (simp add: process_video_def video_offers_def Let_def apply_offers_Nil apply_offers_Cons)
  ultimately show ?case using Cons.IH by (simp add: apply_offers_append)
qed

lemma process_article_offers:
  "process_article lib year start_year end_year a st =
     apply_offers (article_offers lib year start_year end_year a) st"
  by (simp add: process_article_def article_offers_def Let_def foldl_process_img
        foldl_process_video apply_offers_append apply_offers_Nil)

lemma process_articles_offers:
  "process_articles lib year start_year end_year arts st =
     apply_offers (articles_offers lib year start_year end_year arts) st"
  by (induction lib year start_year end_year arts st rule: process_articles.induct)
     (simp_all add: apply_offers_Nil apply_offers_append process_article_offers)

lemma process_page_offers:
  "process_page lib post_link username start_year end_year pg st =
     apply_offers (page_offers lib post_link username start_year end_year pg) st"
  by (auto simp: process_page_def page_offers_def Let_def process_articles_offers apply_offers_Nil
           split: option.splits)

lemma process_post_offers:
  "process_post lib post_link username start_year end_year st =
     apply_offers (post_offers lib post_link username start_year end_year) st"
  by (simp add: process_post_def post_offers_def process_page_offers apply_offers_Nil
           split: option.splits)

section \<open>What adding does to a state\<close>

lemma urls_Nil: "urls [] = []"
  by (simp add: urls_def)

lemma urls_Cons: "urls ((k, l) # kvs) = l @ urls kvs"
  by (simp add: urls_def)

lemma set_urls_append_media:
  "set (urls (append_media post_date src kvs)) = insert src (set (urls kvs))"
proof (induction kvs)
  case Nil
  show ?case by (simp add: urls_def)
next
  case (Cons kv kvs)
  obtain k l where kv: "kv = (k, l)" by (cases kv) auto
  show ?case unfolding kv using Cons.IH
    by (cases "k = post_date") (auto simp: urls_Cons)
qed

lemma distinct_urls_append_media:
  "distinct (urls (append_media post_date src kvs)) \<longleftrightarrow>
     distinct (urls kvs) \<and> src \<notin> set (urls kvs)"
proof (induction kvs)
  case Nil
  show ?case by (simp add: urls_def)
next
  case (Cons kv kvs)
  obtain k l where kv: "kv = (k, l)" by (cases kv) auto
  show ?case
  proof (cases "k = post_date")
    case True
    then show ?thesis unfolding kv by (auto simp: urls_Cons)
  next
    case False
    then show ?thesis unfolding kv using Cons.IH
      by (auto simp: urls_Cons set_urls_append_media)
  qed
qed

lemma stored_append_media:
  "stored (append_media post_date src kvs) k url \<longleftrightarrow>
     stored kvs k url \<or> (k = post_date \<and> url = src)"
proof (induction kvs)
  case Nil
  show ?case by (auto simp: stored_def)
next
  case (Cons kv kvs)
  obtain a l where kv: "kv = (a, l)" by (cases kv) auto
  show ?case using Cons.IH unfolding kv
    by (cases "a = post_date") (auto simp: stored_def)
qed

lemma add_media_seen:
  "snd (add_media media_type post_date src st) mt =
     (if mt = media_type then insert src (snd st mt) else snd st mt)"
  by (auto simp: add_media_def Let_def)

lemma add_media_stored:
  "stored (fst (add_media media_type post_date src st) mt) k url \<longleftrightarrow>
     stored (fst st mt) k url \<or>
     (mt = media_type \<and> k = post_date \<and> url = src \<and> src \<notin> snd st media_type)"
  by (auto simp: add_media_def Let_def stored_append_media)

lemma add_media_urls:
  "set (urls (fst (add_media media_type post_date src st) mt)) =
     (if mt = media_type \<and> src \<notin> snd st media_type
      then insert src (set (urls (fst st mt))) else set (urls (fst st mt)))"
  by (auto simp: add_media_def Let_def set_urls_append_media)

lemma add_media_seen_already:
  "src \<in> snd st media_type \<Longrightarrow> add_media media_type post_date src st = st"
  by (simp add: add_media_def Let_def)

lemma store_consistent_iff:
  "store_consistent st \<longleftrightarrow>
     (\<forall>mt. distinct (urls (fst st mt)) \<and> set (urls (fst st mt)) \<subseteq> snd st mt)"
proof
  assume h: "store_consistent st"
  show "\<forall>mt. distinct (urls (fst st mt)) \<and> set (urls (fst st mt)) \<subseteq> snd st mt"
  proof
    fix mt show "distinct (urls (fst st mt)) \<and> set (urls (fst st mt)) \<subseteq> snd st mt"
      using h by (cases mt) (simp_all add: store_consistent_def)
  qed
next
  assume "\<forall>mt. distinct (urls (fst st mt)) \<and> set (urls (fst st mt)) \<subseteq> snd st mt"
  then show "store_consistent st" by (simp add: store_consistent_def)
qed

lemma add_media_consistent:
  assumes "store_consistent st"
  shows "store_consistent (add_media media_type post_date src st)"
  unfolding store_consistent_iff
proof
  fix mt
  have c: "distinct (urls (fst st mt))" "set (urls (fst st mt)) \<subseteq> snd st mt"
    using assms by (simp_all add: store_consistent_iff)
  show "distinct (urls (fst (add_media media_type post_date src st) mt)) \<and>
        set (urls (fst (add_media media_type post_date src st) mt))
          \<subseteq> snd (add_media media_type post_date src st) mt"
    using c by (auto simp: add_media_def Let_def distinct_urls_append_media set_urls_append_media)
qed

section \<open>What a list of offers does to a state\<close>

lemma apply_offers_seen:
  "snd (apply_offers xs st) mt = snd st mt \<union> {src. \<exists>d. (mt, d, src) \<in> set xs}"
proof (induction xs arbitrary: st)
  case Nil
  show ?case by (simp add: apply_offers_Nil)
next
  case (Cons x xs)
  obtain m d s where x: "x = (m, d, s)" by (cases x) auto
  show ?case unfolding apply_offers_Cons Cons.IH x
    by (auto simp: add_media_seen)
qed

lemma apply_offers_all_seen:
  "\<forall>x \<in> set xs. snd (snd x) \<in> snd st (fst x) \<Longrightarrow> apply_offers xs st = st"
proof (induction xs)
  case Nil
  show ?case by (simp add: apply_offers_Nil)
next
  case (Cons x xs)
  then show ?case by (simp add: apply_offers_Cons add_media_seen_already)
qed

lemma apply_offers_idem: "apply_offers xs (apply_offers xs st) = apply_offers xs st"
proof (rule apply_offers_all_seen, rule ballI)
  fix x assume "x \<in> set xs"
  then have "(fst x, fst (snd x), snd (snd x)) \<in> set xs" by simp
  then show "snd (snd x) \<in> snd (apply_offers xs st) (fst x)"
    unfolding apply_offers_seen by blast
qed

lemma apply_offers_consistent:
  "store_consistent st \<Longrightarrow> store_consistent (apply_offers xs st)"
  by (induction xs arbitrary: st) (simp_all add: apply_offers_Nil apply_offers_Cons add_media_consistent)

lemma apply_offers_stored:
  "stored (fst (apply_offers xs st) mt) k url \<Longrightarrow>
     stored (fst st mt) k url \<or> ((mt, k, url) \<in> set xs \<and> url \<notin> snd st mt)"
proof (induction xs arbitrary: st)
  case Nil
  then show ?case by (simp add: apply_offers_Nil)
next
  case (Cons x xs)
  obtain m d s where x: "x = (m, d, s)" by (cases x) auto
  from Cons.prems have "stored (fst (apply_offers xs (add_media m d s st)) mt) k url"
    by (simp add: apply_offers_Cons x)
  from Cons.IH[OF this] show ?case
    unfolding x by (auto simp: add_media_stored add_media_seen split: if_splits)
qed

lemma apply_offers_urls:
  "set (urls (fst (apply_offers xs st) mt)) \<subseteq>
     set (urls (fst st mt)) \<union> (snd (apply_offers xs st) mt - snd st mt)"
proof (induction xs arbitrary: st)
  case Nil
  show ?case by (simp add: apply_offers_Nil)
next
  case (Cons x xs)
  obtain m d s where x: "x = (m, d, s)" by (cases x) auto
  have "set (urls (fst (apply_offers xs (add_media m d s st)) mt)) \<subseteq>
     set (urls (fst (add_media m d s st) mt)) \<union>
       (snd (apply_offers xs (add_media m d s st)) mt - snd (add_media m d s st) mt)"
    by (rule Cons.IH)
  moreover have "s \<in> snd (apply_offers xs (add_media m d s st)) m"
    unfolding apply_offers_seen by (simp add: add_media_seen)
  ultimately show ?case
    unfolding x apply_offers_Cons
    by (auto simp: add_media_urls add_media_seen split: if_splits)
qed

lemma apply_offers_urls_mono:
  "set (urls (fst st mt)) \<subseteq> set (urls (fst (apply_offers xs st) mt))"
proof (induction xs arbitrary: st)
  case Nil
  show ?case by (simp add: apply_offers_Nil)
next
  case (Cons x xs)
  obtain m d s where x: "x = (m, d, s)" by (cases x) auto
  have "set (urls (fst st mt)) \<subseteq> set (urls (fst (add_media m d s st) mt))"
    by (auto simp: add_media_urls)
  then show ?case unfolding x apply_offers_Cons using Cons.IH by fastforce
qed

section \<open>What the offers of a post are\<close>

lemma contains_map: "contains sub s \<Longrightarrow> contains (map f sub) (map f s)"
  by (induction s) (auto dest: map_mono_prefix[where f = f])

lemma not_unwanted:
  assumes "\<not> unwanted src"
  shows "\<not> contains ''addonflare/awardsystem/icons/'' src"
    and "\<forall>keyword \<in> set [''avatars'', ''ozzmodz_badges_badge'', ''premium'', ''likes''].
           \<not> contains keyword (lower src) \<and> \<not> contains keyword src"
proof -
  show "\<not> contains ''addonflare/awardsystem/icons/'' src"
    using assms by (simp add: unwanted_def)
  have low: "\<forall>keyword \<in> set [''avatars'', ''ozzmodz_badges_badge'', ''premium'', ''likes''].
           \<not> contains keyword (lower src)"
    using assms by (simp add: unwanted_def)
  have fixed: "\<forall>keyword \<in> set [''avatars'', ''ozzmodz_badges_badge'', ''premium'', ''likes''].
           lower keyword = keyword"
    by (simp add: lower_def lower_char_def)
  show "\<forall>keyword \<in> set [''avatars'', ''ozzmodz_badges_badge'', ''premium'', ''likes''].
           \<not> contains keyword (lower src) \<and> \<not> contains keyword src"
  proof
    fix keyword
    assume k: "keyword \<in> set [''avatars'', ''ozzmodz_badges_badge'', ''premium'', ''likes'']"
    have "contains keyword src \<Longrightarrow> contains (lower keyword) (lower src)"
      unfolding lower_def by (rule contains_map)
    then show "\<not> contains keyword (lower src) \<and> \<not> contains keyword src"
      using low fixed k by metis
  qed
qed

lemma img_offers_accepted:
  "(mt, d, src) \<in> set (img_offers lib post_date raws) \<Longrightarrow> d = post_date \<and> accepted mt src"
  by (auto simp: img_offers_def Let_def accepted_def split: if_splits)

lemma video_offers_accepted:
  "(mt, d, src) \<in> set (video_offers lib post_date raws) \<Longrightarrow> d = post_date \<and> accepted mt src"
  by (auto simp: video_offers_def Let_def accepted_def split: if_splits)

lemma article_offers_accepted:
  "(mt, d, src) \<in> set (article_offers lib year start_year end_year a) \<Longrightarrow>
     d = post_date_of lib year a \<and> accepted mt src"
  by (auto simp: article_offers_def Let_def split: if_splits
           dest: img_offers_accepted video_offers_accepted)

lemma articles_offers_from:
  "x \<in> set (articles_offers lib year start_year end_year arts) \<Longrightarrow>
     \<exists>a. Some a \<in> set arts \<and> x \<in> set (article_offers lib year start_year end_year a)"
  by (induction lib year start_year end_year arts rule: articles_offers.induct) auto

lemma find_in_set: "find P xs = Some a \<Longrightarrow> a \<in> set xs"
  by (induction xs) (auto split: if_splits)

lemma select_articles_subset:
  "Some a \<in> set (select_articles post_link pg) \<Longrightarrow> a \<in> set (articles pg)"
  by (auto simp: select_articles_def split: option.splits dest: find_in_set[OF sym])

lemma page_offers_from:
  assumes "x \<in> set (page_offers lib post_link username start_year end_year pg)"
  shows "\<exists>a \<in> set (articles pg).
           x \<in> set (article_offers lib
                      (case search_newer_than post_link of
                         Some y \<Rightarrow> int (digits_to_nat y) | None \<Rightarrow> end_year)
                      start_year end_year a)"
proof -
  define year where "year = (case search_newer_than post_link of
                         Some y \<Rightarrow> int (digits_to_nat y) | None \<Rightarrow> end_year)"
  from assms have
    "x \<in> set (articles_offers lib year start_year end_year (select_articles post_link pg)) \<or>
     x \<in> set (articles_offers lib year start_year end_year
                (filter (article_matches (lower username)) (select_articles post_link pg)))"
    by (auto simp: page_offers_def Let_def year_def[symmetric] split: option.splits if_splits)
  then obtain a where "Some a \<in> set (select_articles post_link pg)"
    "x \<in> set (article_offers lib year start_year end_year a)"
    using articles_offers_from[of x lib year start_year end_year] by fastforce
  then show ?thesis
    unfolding year_def[symmetric]
    using select_articles_subset by blast
qed

lemma post_offers_from:
  assumes "(mt, d, src) \<in> set (post_offers lib post_link username start_year end_year)"
  shows "\<exists>pg a. fetch lib post_link = Some pg \<and> a \<in> set (articles pg) \<and>
           d = post_date_of lib
                 (case search_newer_than post_link of
                    Some y \<Rightarrow> int (digits_to_nat y) | None \<Rightarrow> end_year) a \<and>
           accepted mt src"
proof -
  from assms obtain pg where pg: "fetch lib post_link = Some pg"
    "(mt, d, src) \<in> set (page_offers lib post_link username start_year end_year pg)"
    by (cases "fetch lib post_link") (auto simp: post_offers_def)
  from page_offers_from[OF pg(2)] article_offers_accepted pg(1) show ?thesis by blast
qed

lemma process_post_new:
  assumes "stored (fst (process_post lib post_link username start_year end_year st) media_type)
             post_date url"
      and "\<not> stored (fst st media_type) post_date url"
  shows "(media_type, post_date, url) \<in> set (post_offers lib post_link username start_year end_year)"
  using assms apply_offers_stored unfolding process_post_offers by blast

section \<open>Claims about the extractor\<close>

text \<open>
  The date of a stored URL. A URL that \<open>process_post\<close> stores under a date, and that
  was not stored under it before, comes from an article of the fetched page, and the date
  is the publish date extracted from that article when there is one, and otherwise
  \<open>{year}-01-01\<close>, where \<open>year\<close> is the four digits that follow the first
  \<open>c[newer_than]=\<close> of the post link when the link has such a marker, and the requested
  end year when it has none.
\<close>

lemma process_post_date:
  assumes "stored (fst (process_post lib post_link username start_year end_year st) media_type)
             post_date url"
      and "\<not> stored (fst st media_type) post_date url"
  shows "\<exists>pg a year. fetch lib post_link = Some pg \<and> a \<in> set (articles pg) \<and>
           year = (case search_newer_than post_link of
                     Some y \<Rightarrow> int (digits_to_nat y) | None \<Rightarrow> end_year) \<and>
           post_date = (case extract_post_date lib a of
                          None \<Rightarrow> show_int year @ ''-01-01''
                        | Some d \<Rightarrow> if d = [] then show_int year @ ''-01-01'' else d)"
  using post_offers_from[OF process_post_new[OF assms]]
  unfolding post_date_of_def by blast

text \<open>
  Claim C8. Running \<open>process_post\<close> a second time on the same post, with the seen sets
  and the store the first run left, changes nothing; and a store whose URLs are all
  different and all seen, as the empty store is, stays so, so that it holds no URL twice
  for a media type.
\<close>

theorem process_post_idempotent:
  "process_post lib post_link username start_year end_year
     (process_post lib post_link username start_year end_year st) =
   process_post lib post_link username start_year end_year st \<and>
   (store_consistent st \<longrightarrow>
      store_consistent (process_post lib post_link username start_year end_year st))"
  unfolding process_post_offers
  by (simp add: apply_offers_idem apply_offers_consistent)

text \<open>
  What the extractor never stores. A URL that \<open>process_post\<close> stores, and that was not
  stored before, contains none of the denylisted substrings (the four keywords not even
  in another case), does not start with \<open>data:\<close> when it is stored as a video, and does
  not start with \<open>data:image\<close> when it is stored as an image or a gif.
\<close>

lemma process_post_rejects_unwanted:
  assumes "stored (fst (process_post lib post_link username start_year end_year st) media_type)
             post_date url"
      and "\<not> stored (fst st media_type) post_date url"
  shows "\<not> contains ''addonflare/awardsystem/icons/'' url \<and>
         (\<forall>keyword \<in> set [''avatars'', ''ozzmodz_badges_badge'', ''premium'', ''likes''].
            \<not> contains keyword (lower url) \<and> \<not> contains keyword url) \<and>
         (media_type = Videos \<longrightarrow> \<not> startswith url ''data:'') \<and>
         (media_type \<noteq> Videos \<longrightarrow> \<not> startswith url ''data:image'')"
proof -
  have "accepted media_type url"
    using post_offers_from[OF process_post_new[OF assms]] by blast
  then show ?thesis
    using not_unwanted[of url] by (auto simp: accepted_def split: if_splits)
qed

lemma process_page_depends:
  assumes "search_post_id post_link = Some n" "p_title pg = p_title pg'"
          "find (is_post n) (articles pg) = find (is_post n) (articles pg')"
  shows "process_page lib post_link username start_year end_year pg st =
         process_page lib post_link username start_year end_year pg' st"
proof -
  have sel: "select_articles post_link pg = select_articles post_link pg'"
    using assms(1,3) by (simp add: select_articles_def)
  show ?thesis unfolding process_page_def sel assms(2) by (rule refl)
qed













section \<open>The crawl\<close>

lemma foldl_process_post:
  "foldl (\<lambda>st link. process_post lib link username start_year end_year st) st links =
     apply_offers (concat (map (\<lambda>link. post_offers lib link username start_year end_year) links)) st"
  by (induction links arbitrary: st)
     (simp_all add: apply_offers_Nil apply_offers_append process_post_offers)

lemma crawl_username_seen:
  "snd cst mt \<subseteq> snd (crawl_username lib post_links_of start_year end_year cst username) mt"
  by (simp add: crawl_username_def Let_def foldl_process_post apply_offers_seen)

lemma crawl_username_inv:
  assumes sub: "\<forall>mt u. set (urls (fst cst u mt)) \<subseteq> snd cst mt"
      and dis: "\<forall>mt u1 u2. u1 \<noteq> u2 \<longrightarrow>
                  set (urls (fst cst u1 mt)) \<inter> set (urls (fst cst u2 mt)) = {}"
  shows "(\<forall>mt u. set (urls (fst (crawl_username lib post_links_of start_year end_year cst username) u mt))
                   \<subseteq> snd (crawl_username lib post_links_of start_year end_year cst username) mt) \<and>
         (\<forall>mt u1 u2. u1 \<noteq> u2 \<longrightarrow>
            set (urls (fst (crawl_username lib post_links_of start_year end_year cst username) u1 mt)) \<inter>
            set (urls (fst (crawl_username lib post_links_of start_year end_year cst username) u2 mt)) = {})"
proof -
  define cst' where "cst' = crawl_username lib post_links_of start_year end_year cst username"
  define xs where
    "xs = concat (map (\<lambda>link. post_offers lib link username start_year end_year)
                    (post_links_of username))"
  define st' where "st' = apply_offers xs (fst cst username, snd cst)"
  have cst': "fst cst' = (fst cst)(username := fst st')" "snd cst' = snd st'"
    by (simp_all add: cst'_def crawl_username_def Let_def foldl_process_post xs_def st'_def)
  have seen: "\<And>mt. snd cst mt \<subseteq> snd st' mt"
    by (simp add: st'_def apply_offers_seen)
  have new: "\<And>mt. set (urls (fst st' mt)) \<subseteq>
                set (urls (fst cst username mt)) \<union> (snd st' mt - snd cst mt)"
    using apply_offers_urls[of xs "(fst cst username, snd cst)"] by (simp add: st'_def)
  show ?thesis unfolding cst'_def[symmetric]
  proof (intro conjI allI impI)
    fix mt u
    show "set (urls (fst cst' u mt)) \<subseteq> snd cst' mt"
    proof (cases "u = username")
      case True
      have "set (urls (fst cst username mt)) \<subseteq> snd cst mt" using sub by blast
      then have "set (urls (fst st' mt)) \<subseteq> snd st' mt"
        using seen[of mt] new[of mt] by blast
      then show ?thesis using True unfolding cst' by simp
    next
      case False
      have "set (urls (fst cst u mt)) \<subseteq> snd cst mt" using sub by blast
      then show ?thesis using False seen[of mt] unfolding cst' by auto
    qed
  next
    fix mt u1 u2 assume ne: "u1 \<noteq> (u2 :: string)"
    have other: "\<And>u. u \<noteq> username \<Longrightarrow>
                   set (urls (fst st' mt)) \<inter> set (urls (fst cst u mt)) = {}"
    proof -
      fix u assume u: "u \<noteq> username"
      have "set (urls (fst cst u mt)) \<subseteq> snd cst mt" using sub by blast
      moreover have "set (urls (fst cst username mt)) \<inter> set (urls (fst cst u mt)) = {}"
        using dis u by blast
      ultimately show "set (urls (fst st' mt)) \<inter> set (urls (fst cst u mt)) = {}"
        using new[of mt] by blast
    qed
    show "set (urls (fst cst' u1 mt)) \<inter> set (urls (fst cst' u2 mt)) = {}"
    proof (cases "u1 = username")
      case True
      then have "u2 \<noteq> username" using ne by simp
      then show ?thesis using True other[of u2] unfolding cst' by simp
    next
      case False
      show ?thesis
      proof (cases "u2 = username")
        case True
        then show ?thesis using False other[of u1] unfolding cst' by auto
      next
        case u2: False
        then show ?thesis using False dis ne unfolding cst' by simp
      qed
    qed
  qed
qed

lemma crawl_snoc:
  "crawl lib post_links_of start_year end_year (usernames @ [username]) =
     crawl_username lib post_links_of start_year end_year
       (crawl lib post_links_of start_year end_year usernames) username"
  by (simp add: crawl_def)

lemma crawl_inv:
  "(\<forall>mt u. set (urls (fst (crawl lib post_links_of start_year end_year usernames) u mt))
             \<subseteq> snd (crawl lib post_links_of start_year end_year usernames) mt) \<and>
   (\<forall>mt u1 u2. u1 \<noteq> u2 \<longrightarrow>
      set (urls (fst (crawl lib post_links_of start_year end_year usernames) u1 mt)) \<inter>
      set (urls (fst (crawl lib post_links_of start_year end_year usernames) u2 mt)) = {})"
proof (induction usernames rule: rev_induct)
  case Nil
  show ?case by (simp add: crawl_def empty_store_def empty_seen_def urls_def)
next
  case (snoc username usernames)
  show ?case unfolding crawl_snoc
    using crawl_username_inv[OF conjunct1[OF snoc.IH] conjunct2[OF snoc.IH]] by blast
qed

text \<open>
  Claim C1, as the code has it. The seen sets are created once for the crawl and shared
  by the subjects: the next subject starts from what the crawl of the subjects before it
  left, the crawl of a subject only adds to the seen sets, and so the stores of two
  different subjects never hold the same URL for the same media type.
\<close>

theorem crawl_seen_shared:
  "crawl lib post_links_of start_year end_year (usernames @ [username]) =
     crawl_username lib post_links_of start_year end_year
       (crawl lib post_links_of start_year end_year usernames) username \<and>
   snd cst media_type \<subseteq>
     snd (crawl_username lib post_links_of start_year end_year cst username) media_type \<and>
   (u1 \<noteq> u2 \<longrightarrow>
      set (urls (fst (crawl lib post_links_of start_year end_year usernames) u1 media_type)) \<inter>
      set (urls (fst (crawl lib post_links_of start_year end_year usernames) u2 media_type)) = {})"
  using crawl_snoc[of lib post_links_of start_year end_year usernames username]
        crawl_username_seen[of cst media_type lib post_links_of start_year end_year username]
        crawl_inv[of lib post_links_of start_year end_year usernames]
  by blast

section \<open>The examples\<close>

lemma example_images:
  "fst (process_post (lib_example fetch_example) link_thread ''jane'' 2019 2021
          (empty_store, empty_seen)) Images =
     [(''2021-01-01'', [''https://x/a.jpg'']),
      (''2020-05-06'', [''https://desifakes.com/b.jpg'', ''data:text/plain,x''])]"
  by code_simp

lemma example_videos:
  "fst (process_post (lib_example fetch_example) link_thread ''jane'' 2019 2021
          (empty_store, empty_seen)) Videos =
     [(''2020-05-06'', [''https://desifakes.com/v.mp4''])]"
  by code_simp

lemma example_empty_consistent: "store_consistent (empty_store, empty_seen)"
  by code_simp

text \<open>
  The lemma on the date at the first image of the example page, fetched through a thread
  link for the years 2019 to 2021.
\<close>

lemma process_post_date_example:
  "stored (fst (process_post (lib_example fetch_example) link_thread ''jane'' 2019 2021
                  (empty_store, empty_seen)) Images) ''2021-01-01'' ''https://x/a.jpg'' \<and>
   \<not> stored (fst (empty_store, empty_seen) Images) ''2021-01-01'' ''https://x/a.jpg'' \<and>
   (\<exists>pg a year. fetch (lib_example fetch_example) link_thread = Some pg \<and> a \<in> set (articles pg) \<and>
      year = (case search_newer_than link_thread of
                Some y \<Rightarrow> int (digits_to_nat y) | None \<Rightarrow> 2021) \<and>
      ''2021-01-01'' = (case extract_post_date (lib_example fetch_example) a of
                          None \<Rightarrow> show_int year @ ''-01-01''
                        | Some d \<Rightarrow> if d = [] then show_int year @ ''-01-01'' else d))"
proof -
  have h1: "stored (fst (process_post (lib_example fetch_example) link_thread ''jane'' 2019 2021
                  (empty_store, empty_seen)) Images) ''2021-01-01'' ''https://x/a.jpg''"
    unfolding example_images by (simp add: stored_def)
  have h2: "\<not> stored (fst (empty_store, empty_seen) Images) ''2021-01-01'' ''https://x/a.jpg''"
    by (simp add: stored_def empty_store_def)
  show ?thesis using h1 h2 process_post_date[OF h1 h2] by blast
qed

text \<open>
  Claim C7 at a failing input: a crawl for the years 2019 to 2021 and a thread link found
  in the window that starts on 2020-03-13. The regular expression that looks for the
  year of the window is applied to the post link, and a thread link has no
  \<open>c[newer_than]\<close> parameter; only the search URL of the window has one, and
  \<open>process_post\<close> is not given that URL. So the image of the article without a
  timestamp is stored under the end year of the crawl, 2021-01-01, not under 2020-01-01.
\<close>

theorem process_post_fallback_year:
  "fst (process_post (lib_example fetch_example) link_thread ''jane'' 2019 2021
          (empty_store, empty_seen)) Images =
     [(''2021-01-01'', [''https://x/a.jpg'']),
      (''2020-05-06'', [''https://desifakes.com/b.jpg'', ''data:text/plain,x''])] \<and>
   extract_post_date (lib_example fetch_example) art_plain = None \<and>
   search_newer_than link_thread = None \<and>
   search_newer_than ''https://desifakes.com/search/40169483/?q=jane&c[newer_than]=2020-03-13&c[older_than]=2020-04-03&c[title_only]=0&o=date'' = Some ''2020'' \<and>
   show_int 2020 @ ''-01-01'' \<noteq> ''2021-01-01''"
  by code_simp

text \<open>The theorem of C8 at the example page and the empty state.\<close>

theorem process_post_idempotent_witness:
  "store_consistent (empty_store, empty_seen) \<and>
   store_consistent (process_post (lib_example fetch_example) link_thread ''jane'' 2019 2021
                       (empty_store, empty_seen)) \<and>
   fst (process_post (lib_example fetch_example) link_thread ''jane'' 2019 2021
          (process_post (lib_example fetch_example) link_thread ''jane'' 2019 2021
             (empty_store, empty_seen))) Images =
     [(''2021-01-01'', [''https://x/a.jpg'']),
      (''2020-05-06'', [''https://desifakes.com/b.jpg'', ''data:text/plain,x''])]"
  using process_post_idempotent[of "lib_example fetch_example" link_thread "''jane''" 2019 2021
          "(empty_store, empty_seen)"]
        example_empty_consistent example_images
  by simp

text \<open>The lemma on what is never stored, at the video of the example page.\<close>

lemma process_post_rejects_unwanted_example:
  "stored (fst (process_post (lib_example fetch_example) link_thread ''jane'' 2019 2021
                  (empty_store, empty_seen)) Videos) ''2020-05-06'' ''https://desifakes.com/v.mp4'' \<and>
   \<not> stored (fst (empty_store, empty_seen) Videos) ''2020-05-06'' ''https://desifakes.com/v.mp4'' \<and>
   \<not> contains ''addonflare/awardsystem/icons/'' ''https://desifakes.com/v.mp4'' \<and>
   \<not> contains ''avatars'' (lower ''https://desifakes.com/v.mp4'') \<and>
   \<not> startswith ''https://desifakes.com/v.mp4'' ''data:''"
proof -
  have h1: "stored (fst (process_post (lib_example fetch_example) link_thread ''jane'' 2019 2021
                  (empty_store, empty_seen)) Videos) ''2020-05-06'' ''https://desifakes.com/v.mp4''"
    unfolding example_videos by (simp add: stored_def)
  have h2: "\<not> stored (fst (empty_store, empty_seen) Videos) ''2020-05-06'' ''https://desifakes.com/v.mp4''"
    by (simp add: stored_def empty_store_def)
  show ?thesis using h1 h2 process_post_rejects_unwanted[OF h1 h2] by simp
qed

text \<open>
  Claim C9 at a failing input: an article with an \<open>img\<close> tag whose source is the data
  URI \<open>data:text/plain,x\<close> and a \<open>source\<close> tag whose source is the data URI
  \<open>data:video/mp4;base64,AAAA\<close>. The loops over the \<open>video\<close> and \<open>source\<close> tags
  reject what starts with \<open>data:\<close>, and the data URI of the \<open>source\<close> tag is not
  stored; the loop over the \<open>img\<close> tags rejects only what starts with
  \<open>data:image\<close>, and the data URI of the \<open>img\<close> tag is stored as an image.
\<close>

theorem process_post_stores_data_uri:
  "''data:text/plain,x'' \<in> set (imgs art_dated) \<and>
   ''data:video/mp4;base64,AAAA'' \<in> set (sources art_dated) \<and>
   startswith ''data:text/plain,x'' ''data:'' \<and>
   fst (process_post (lib_example fetch_example) link_thread ''jane'' 2019 2021
          (empty_store, empty_seen)) Images =
     [(''2021-01-01'', [''https://x/a.jpg'']),
      (''2020-05-06'', [''https://desifakes.com/b.jpg'', ''data:text/plain,x''])] \<and>
   stored (fst (process_post (lib_example fetch_example) link_thread ''jane'' 2019 2021
                  (empty_store, empty_seen)) Images) ''2020-05-06'' ''data:text/plain,x'' \<and>
   fst (process_post (lib_example fetch_example) link_thread ''jane'' 2019 2021
          (empty_store, empty_seen)) Videos =
     [(''2020-05-06'', [''https://desifakes.com/v.mp4''])]"
  by code_simp




lemma example_crawl:
  "fst (crawl (lib_example fetch_example) links_example 2019 2021 [''jane'', ''mary'']) ''jane'' Images =
     [(''2021-01-01'', [''https://x/a.jpg'']),
      (''2020-05-06'', [''https://desifakes.com/b.jpg'', ''data:text/plain,x''])]"
  "fst (crawl (lib_example fetch_example) links_example 2019 2021 [''jane'', ''mary'']) ''mary'' Images = []"
  by code_simp+

text \<open>The theorem of C1 at a crawl of two subjects that lead to the same post.\<close>

theorem crawl_seen_shared_witness:
  "''jane'' \<noteq> ''mary'' \<and>
   fst (crawl (lib_example fetch_example) links_example 2019 2021 [''jane'', ''mary'']) ''jane'' Images =
     [(''2021-01-01'', [''https://x/a.jpg'']),
      (''2020-05-06'', [''https://desifakes.com/b.jpg'', ''data:text/plain,x''])] \<and>
   set (urls (fst (crawl (lib_example fetch_example) links_example 2019 2021 [''jane'', ''mary''])
                ''jane'' Images)) \<inter>
   set (urls (fst (crawl (lib_example fetch_example) links_example 2019 2021 [''jane'', ''mary''])
                ''mary'' Images)) = {}"
  using crawl_seen_shared[of "lib_example fetch_example" links_example 2019 2021
          "[''jane'', ''mary'']" "''x''" "(\<lambda>u. empty_store, empty_seen)" Images "''jane''" "''mary''"]
        example_crawl(1)
  by simp

text \<open>
  Claim C1, as the specification words it, fails at a crawl of two subjects whose windows
  lead to the same post, which matches both: the images recorded for the first subject
  are not recorded for the second, although the second subject alone gets them.
\<close>

theorem crawl_second_subject_counterexample:
  "fst (crawl (lib_example fetch_example) links_example 2019 2021 [''jane'', ''mary'']) ''jane'' Images =
     [(''2021-01-01'', [''https://x/a.jpg'']),
      (''2020-05-06'', [''https://desifakes.com/b.jpg'', ''data:text/plain,x''])] \<and>
   fst (crawl (lib_example fetch_example) links_example 2019 2021 [''jane'', ''mary'']) ''mary'' Images = [] \<and>
   fst (crawl (lib_example fetch_example) links_example 2019 2021 [''mary'']) ''mary'' Images =
     [(''2021-01-01'', [''https://x/a.jpg'']),
      (''2020-05-06'', [''https://desifakes.com/b.jpg'', ''data:text/plain,x''])]"
  by code_simp

end
